theory Spec2Isabelle
  imports Main "HOL-Library.Sublist"
begin

section \<open>The string operations the script calls\<close>

text \<open>
  A Python \<open>str\<close> is modelled as a \<open>string\<close>; a \<open>char\<close> stands for one code point below
  256. The operations below are the methods of \<open>str\<close> that \<open>extract_questionnaires.py\<close>
  calls: \<open>endswith\<close>, \<open>strip\<close>, \<open>join\<close> and \<open>replace\<close>.
\<close>

text \<open>\<open>s.endswith(suf)\<close>: a comparison of code points, hence case-sensitive.\<close>

definition endswith :: "string \<Rightarrow> string \<Rightarrow> bool" where
  "endswith s suf = suffix suf s"

text \<open>
  \<open>c.isspace()\<close> on the code points below 256: tab to carriage return, the four
  separators FS, GS, RS and US, the space, NEL and the no-break space.
\<close>

definition isspace :: "char \<Rightarrow> bool" where
  "isspace c =
     (c \<in> {CHR 0x09, CHR 0x0A, CHR 0x0B, CHR 0x0C, CHR 0x0D, CHR 0x1C, CHR 0x1D,
            CHR 0x1E, CHR 0x1F, CHR 0x20, CHR 0x85, CHR 0xA0})"

text \<open>\<open>s.strip()\<close>: drop the whitespace at the front, then the whitespace at the back.\<close>

definition strip :: "string \<Rightarrow> string" where
  "strip s = rev (dropWhile isspace (rev (dropWhile isspace s)))"

text \<open>\<open>sep.join(xs)\<close>.\<close>

fun join :: "string \<Rightarrow> string list \<Rightarrow> string" where
  "join sep [] = []"
| "join sep [x] = x"
| "join sep (x # y # ys) = x @ sep @ join sep (y # ys)"

text \<open>
  \<open>s.replace(old, new)\<close>: every occurrence of \<open>old\<close>, found from left to right and not
  overlapping an earlier one, becomes \<open>new\<close>. With an empty \<open>old\<close>, Python puts \<open>new\<close> in
  front of every code point and at the end.
\<close>

function replace :: "string \<Rightarrow> string \<Rightarrow> string \<Rightarrow> string" where
  "replace s old new =
     (if old = [] then new @ concat (map (\<lambda>c. c # new) s)
      else if s = [] then []
      else if prefix old s then new @ replace (drop (length old) s) old new
      else hd s # replace (tl s) old new)"
  by pat_completeness auto
termination
  by (relation "measure (\<lambda>(s, old, new). length s)") auto

section \<open>Paths\<close>

text \<open>
  The two directories are the constants of the script. They are Windows paths, so
  \<open>os.path.join\<close> is \<open>ntpath.join\<close>: neither directory ends with a separator and the names
  that \<open>os.listdir\<close> returns are bare names, so the join puts one backslash between the two.
\<close>

definition sep :: char where
  "sep = CHR 0x5C"

definition questionnaires_dir :: string where
  "questionnaires_dir =
     ''C:'' @ [sep] @ ''Users'' @ [sep] @ ''rinai'' @ [sep] @ ''stat-q'' @ [sep] @ ''src''
       @ [sep] @ ''Questionnaires''"

definition output_dir :: string where
  "output_dir =
     ''C:'' @ [sep] @ ''Users'' @ [sep] @ ''rinai'' @ [sep] @ ''stat-q'' @ [sep]
       @ ''extracted_questionnaires''"

definition path_join :: "string \<Rightarrow> string \<Rightarrow> string" where
  "path_join a b = a @ [sep] @ b"

section \<open>Documents and the world around the script\<close>

text \<open>
  What the script reads of a \<open>docx.Document\<close>: the texts of its paragraphs, and for every
  table its rows, for every row the texts of its cells.
\<close>

record document =
  paragraphs :: "string list"
  tables :: "string list list list"

text \<open>
  An instance of \<open>Exception\<close>, the class the guard of the loop catches, with its
  description \<open>str(e)\<close>. Every failure of the library and of the file system is one.
\<close>

datatype exn = Exception string

text \<open>
  The library and the operating system are parameters of the model, each a function of
  the path it is called on:
  \<^item> \<open>os_makedirs\<close>: whether \<open>os.makedirs(d, exist_ok=True)\<close> raises;
  \<^item> \<open>os_listdir\<close>: the names directly inside a directory, or the failure;
  \<^item> \<open>docx_Document\<close>: the document parsed from a path, or the failure to open, parse or
    walk it;
  \<^item> \<open>open_w\<close>: whether opening a path for writing raises;
  \<^item> \<open>f_write\<close>: whether writing a piece of text to the open file raises.
\<close>

record world =
  os_makedirs :: "string \<Rightarrow> exn option"
  os_listdir :: "string \<Rightarrow> exn + string list"
  docx_Document :: "string \<Rightarrow> exn + document"
  open_w :: "string \<Rightarrow> exn option"
  f_write :: "string \<Rightarrow> string \<Rightarrow> exn option"

text \<open>
  The state the script changes: the text files by path (the text as written, before the
  encoding to UTF-8), and the console, one entry for each call of \<open>print\<close>.
\<close>

record state =
  files :: "string \<rightharpoonup> string"
  stdout :: "string list"

section \<open>Extraction\<close>

text \<open>The loop over \<open>doc.paragraphs\<close>, appending to \<open>full_text\<close>.\<close>

fun full_text_loop :: "string list \<Rightarrow> string list \<Rightarrow> string list" where
  "full_text_loop [] full_text = full_text"
| "full_text_loop (para # paras) full_text =
     (if strip para \<noteq> [] then full_text_loop paras (full_text @ [strip para])
      else full_text_loop paras full_text)"

definition full_text :: "document \<Rightarrow> string list" where
  "full_text doc = full_text_loop (paragraphs doc) []"

text \<open>The three nested loops over tables, rows and cells.\<close>

fun row_text_loop :: "string list \<Rightarrow> string list \<Rightarrow> string list" where
  "row_text_loop [] row_text = row_text"
| "row_text_loop (cell # cells) row_text = row_text_loop cells (row_text @ [strip cell])"

fun rows_loop :: "string list list \<Rightarrow> string list \<Rightarrow> string list" where
  "rows_loop [] tables_text = tables_text"
| "rows_loop (row # rows) tables_text =
     rows_loop rows (tables_text @ [join '' | '' (row_text_loop row [])])"

fun tables_loop :: "string list list list \<Rightarrow> string list \<Rightarrow> string list" where
  "tables_loop [] tables_text = tables_text"
| "tables_loop (table # rest) tables_text = tables_loop rest (rows_loop table tables_text)"

definition tables_text :: "document \<Rightarrow> string list" where
  "tables_text doc = tables_loop (tables doc) []"

section \<open>Writing one file\<close>

definition file_path :: "string \<Rightarrow> string" where
  "file_path docx_file = path_join questionnaires_dir docx_file"

definition output_filename :: "string \<Rightarrow> string" where
  "output_filename docx_file = replace docx_file ''.docx'' ''.txt''"

definition output_path :: "string \<Rightarrow> string" where
  "output_path docx_file = path_join output_dir (output_filename docx_file)"

text \<open>The texts of the four calls of \<open>f.write\<close>, in their order.\<close>

definition output_chunks :: "document \<Rightarrow> string list" where
  "output_chunks doc =
     [''=== PARAGRAPHS ===\<newline>'',
      join ''\<newline>'' (full_text doc),
      ''\<newline>\<newline>=== TABLES ===\<newline>'',
      join ''\<newline>'' (tables_text doc)]"

text \<open>
  The \<open>with\<close> block on the open file. A call of \<open>f.write\<close> either appends its text or
  raises and appends nothing; the first one that raises ends the block, and the file, closed
  on the way out, keeps what was written before.
\<close>

fun f_writes :: "world \<Rightarrow> string \<Rightarrow> string list \<Rightarrow> string \<Rightarrow> string \<times> exn option" where
  "f_writes w p [] content = (content, None)"
| "f_writes w p (chunk # chunks) content =
     (case f_write w p chunk of
        Some e \<Rightarrow> (content, Some e)
      | None \<Rightarrow> f_writes w p chunks (content @ chunk))"

text \<open>The two status lines, as the f-strings of the script build them.\<close>

definition ok_line :: "string \<Rightarrow> string" where
  "ok_line docx_file = ''[OK] Extracted: '' @ docx_file"

definition error_line :: "string \<Rightarrow> string \<Rightarrow> string" where
  "error_line docx_file e = ''[ERROR] Error extracting '' @ docx_file @ '': '' @ e"

text \<open>
  The body of the \<open>try\<close>: the state it leaves, and the exception it raises if any. Opening
  the output with mode \<open>'w'\<close> creates the file or empties it.
\<close>

definition try_block :: "world \<Rightarrow> string \<Rightarrow> state \<Rightarrow> state \<times> exn option" where
  "try_block w docx_file st =
     (case docx_Document w (file_path docx_file) of
        Inl e \<Rightarrow> (st, Some e)
      | Inr doc \<Rightarrow>
          (case open_w w (output_path docx_file) of
             Some e \<Rightarrow> (st, Some e)
           | None \<Rightarrow>
               (case f_writes w (output_path docx_file) (output_chunks doc) [] of
                  (content, Some e) \<Rightarrow>
                    (st\<lparr>files := (files st)(output_path docx_file \<mapsto> content)\<rparr>, Some e)
                | (content, None) \<Rightarrow>
                    (st\<lparr>files := (files st)(output_path docx_file \<mapsto> content),
                        stdout := stdout st @ [ok_line docx_file]\<rparr>, None))))"

text \<open>One iteration of the loop: the \<open>try\<close> with its handler \<open>except Exception as e\<close>.\<close>

definition process_file :: "world \<Rightarrow> string \<Rightarrow> state \<Rightarrow> state" where
  "process_file w docx_file st =
     (case try_block w docx_file st of
        (st', None) \<Rightarrow> st'
      | (st', Some (Exception e)) \<Rightarrow>
          st'\<lparr>stdout := stdout st' @ [error_line docx_file e]\<rparr>)"

fun for_loop :: "world \<Rightarrow> string list \<Rightarrow> state \<Rightarrow> state" where
  "for_loop w [] st = st"
| "for_loop w (docx_file # rest) st = for_loop w rest (process_file w docx_file st)"

section \<open>The script\<close>

definition docx_files :: "string list \<Rightarrow> string list" where
  "docx_files entries = [f \<leftarrow> entries. endswith f ''.docx'']"

text \<open>
  The whole run, from the text files present at the start. A failure of \<open>os.makedirs\<close> or
  of \<open>os.listdir\<close> is outside every guard and ends the run.
\<close>

definition main :: "world \<Rightarrow> (string \<rightharpoonup> string) \<Rightarrow> exn + state" where
  "main w fs =
     (case os_makedirs w output_dir of
        Some e \<Rightarrow> Inl e
      | None \<Rightarrow>
          (case os_listdir w questionnaires_dir of
             Inl e \<Rightarrow> Inl e
           | Inr entries \<Rightarrow>
               (let st = for_loop w (docx_files entries) \<lparr>files = fs, stdout = []\<rparr>
                in Inr (st\<lparr>stdout := stdout st
                            @ [''\<newline>All extracted files saved to: '' @ output_dir]\<rparr>))))"

section \<open>Sample documents and worlds\<close>

text \<open>Concrete inputs, on which the theorems below are run.\<close>

definition survey_doc :: document where
  "survey_doc =
     \<lparr>paragraphs = ['' Name? '', ''   '', ''Age?''],
      tables = [[[''a '', '' b'', ''c''], [''1'', ''2'']], [[''x'']]]\<rparr>"

definition blank_doc :: document where
  "blank_doc = \<lparr>paragraphs = [''  '', [CHR 0x09], []], tables = []\<rparr>"

text \<open>
  A directory with three selected entries, the second of which is not a document, and two
  entries that the filter leaves out; nothing fails on the output side.
\<close>

definition sample_world :: world where
  "sample_world =
     \<lparr>os_makedirs = (\<lambda>d. None),
      os_listdir = (\<lambda>d. Inr [''Survey1.docx'', ''notes.txt'', ''broken.docx'', ''Survey2.DOCX'',
                              ''Survey3.docx'']),
      docx_Document =
        (\<lambda>p. if p = file_path ''Survey1.docx'' then Inr survey_doc
              else if p = file_path ''Survey3.docx'' then Inr blank_doc
              else Inl (Exception ''Package not found'')),
      open_w = (\<lambda>p. None),
      f_write = (\<lambda>p chunk. None)\<rparr>"

text \<open>The same world with an output directory that refuses every new file.\<close>

definition readonly_world :: world where
  "readonly_world = sample_world\<lparr>open_w := (\<lambda>p. Some (Exception ''Permission denied''))\<rparr>"

text \<open>The same world with a disk that fills up when the second header is written.\<close>

definition full_disk_world :: world where
  "full_disk_world =
     sample_world\<lparr>f_write :=
       (\<lambda>p chunk. if chunk = ''\<newline>\<newline>=== TABLES ===\<newline>''
                   then Some (Exception ''No space left on device'') else None)\<rparr>"

definition start :: state where
  "start = \<lparr>files = Map.empty, stdout = []\<rparr>"

text \<open>What the run in the sample world leaves, from an empty output directory.\<close>

definition sample_result :: state where
  "sample_result =
     \<lparr>files =
        [output_path ''Survey1.docx'' \<mapsto>
           ''=== PARAGRAPHS ===\<newline>Name?\<newline>Age?\<newline>\<newline>=== TABLES ===\<newline>a | b | c\<newline>1 | 2\<newline>x'',
         output_path ''Survey3.docx'' \<mapsto>
           ''=== PARAGRAPHS ===\<newline>\<newline>\<newline>=== TABLES ===\<newline>''],
      stdout =
        [''[OK] Extracted: Survey1.docx'',
         ''[ERROR] Error extracting broken.docx: Package not found'',
         ''[OK] Extracted: Survey3.docx'',
         ''\<newline>All extracted files saved to: '' @ output_dir]\<rparr>"

section \<open>Facts about \<open>replace\<close>\<close>

text \<open>
  The defining equation of \<open>replace\<close> is unconditional, so it leaves the simplifier's set;
  the three cases of the scan are stated on their own.
\<close>

lemma prefix_append_long:
  "length xs \<le> length ys \<Longrightarrow> prefix xs (ys @ zs) = prefix xs ys"
  by (auto simp: prefix_append)

declare replace.simps [simp del]

lemma replace_Nil: "old \<noteq> [] \<Longrightarrow> replace [] old new = []"
  by (simp add: replace.simps)

lemma replace_hit:
  "old \<noteq> [] \<Longrightarrow> prefix old s \<Longrightarrow> replace s old new = new @ replace (drop (length old) s) old new"
  by (subst replace.simps) (auto)

lemma replace_miss:
  "old \<noteq> [] \<Longrightarrow> \<not> prefix old (c # cs) \<Longrightarrow> replace (c # cs) old new = c # replace cs old new"
  by (subst replace.simps) simp

lemma replace_absent:
  "old \<noteq> [] \<Longrightarrow> \<not> sublist old s \<Longrightarrow> replace s old new = s"
proof (induction s)
  case Nil
  then show ?case by (simp add: replace_Nil)
next
  case (Cons c cs)
  from Cons.prems(2) have np: "\<not> prefix old (c # cs)" and ns: "\<not> sublist old cs"
    by (auto simp: sublist_Cons_right)
  with Cons show ?case by (simp add: replace_miss)
qed


lemma short_no_prefix:
  assumes "stem \<noteq> []" "length stem < 5"
  shows "\<not> prefix ''.docx'' (stem @ ''.docx'')"
proof -
  from assms obtain a where "stem = [a] \<or> (\<exists>b. stem = [a, b]) \<or> (\<exists>b c. stem = [a, b, c])
      \<or> (\<exists>b c d. stem = [a, b, c, d])"
    by (cases stem; simp; cases "tl stem"; simp; cases "tl (tl stem)"; simp;
        cases "tl (tl (tl stem))"; simp)
  then show ?thesis by auto
qed

lemma prefix_docx_append:
  assumes "stem \<noteq> []"
  shows "prefix ''.docx'' (stem @ ''.docx'') \<longleftrightarrow> prefix ''.docx'' stem"
proof (cases "length stem < 5")
  case True
  with assms short_no_prefix have "\<not> prefix ''.docx'' (stem @ ''.docx'')" by blast
  moreover from True have "\<not> prefix ''.docx'' stem" by (auto dest: prefix_length_le)
  ultimately show ?thesis by simp
next
  case False
  then have "length ''.docx'' \<le> length stem" by simp
  then show ?thesis by (rule prefix_append_long)
qed

lemma replace_docx_append:
  "replace (stem @ ''.docx'') ''.docx'' ''.txt'' = replace stem ''.docx'' ''.txt'' @ ''.txt''"
proof (induction "length stem" arbitrary: stem rule: less_induct)
  case less
  show ?case
  proof (cases stem)
    case Nil
    have "replace ''.docx'' ''.docx'' ''.txt'' = ''.txt'' @ replace [] ''.docx'' ''.txt''"
      by (subst replace_hit) simp_all
    with Nil show ?thesis by (simp add: replace_Nil)
  next
    case (Cons c cs)
    then have ne: "stem \<noteq> []" by simp
    show ?thesis
    proof (cases "prefix ''.docx'' stem")
      case True
      then have len: "length ''.docx'' \<le> length stem" by (rule prefix_length_le)
      from True ne have hit: "prefix ''.docx'' (stem @ ''.docx'')"
        by (simp add: prefix_docx_append)
      from len ne have "length (drop (length ''.docx'') stem) < length stem" by simp
      then have IH: "replace (drop (length ''.docx'') stem @ ''.docx'') ''.docx'' ''.txt''
          = replace (drop (length ''.docx'') stem) ''.docx'' ''.txt'' @ ''.txt''"
        by (rule less.hyps)
      have "replace (stem @ ''.docx'') ''.docx'' ''.txt''
          = ''.txt'' @ replace (drop (length ''.docx'') (stem @ ''.docx'')) ''.docx'' ''.txt''"
        by (rule replace_hit) (simp, rule hit)
      moreover have "drop (length ''.docx'') (stem @ ''.docx'')
          = drop (length ''.docx'') stem @ ''.docx''"
        using len by simp
      moreover have "replace stem ''.docx'' ''.txt''
          = ''.txt'' @ replace (drop (length ''.docx'') stem) ''.docx'' ''.txt''"
        by (rule replace_hit) (simp, rule True)
      ultimately show ?thesis using IH by simp
    next
      case False
      with ne have miss: "\<not> prefix ''.docx'' (stem @ ''.docx'')"
        by (simp add: prefix_docx_append)
      from Cons have "length cs < length stem" by simp
      then have IH: "replace (cs @ ''.docx'') ''.docx'' ''.txt''
          = replace cs ''.docx'' ''.txt'' @ ''.txt''"
        by (rule less.hyps)
      from miss Cons have "replace (stem @ ''.docx'') ''.docx'' ''.txt''
          = c # replace (cs @ ''.docx'') ''.docx'' ''.txt''"
        by (simp add: replace_miss)
      moreover from False Cons have "replace stem ''.docx'' ''.txt''
          = c # replace cs ''.docx'' ''.txt''"
        by (simp add: replace_miss)
      ultimately show ?thesis using IH by simp
    qed
  qed
qed

lemma endswith_iff: "endswith f suf \<longleftrightarrow> (\<exists>stem. f = stem @ suf)"
  by (simp add: endswith_def suffix_def)

section \<open>The output filename\<close>

text \<open>
  Claim C1, as the code has it. \<open>str.replace\<close> rewrites every occurrence of \<open>.docx\<close>, not only
  the one at the end: for a selected entry \<open>stem + '.docx'\<close> the output filename is the stem
  with every \<open>.docx\<close> in it rewritten to \<open>.txt\<close>, followed by \<open>.txt\<close>. When the stem does not
  contain \<open>.docx\<close> this is the replacement of the trailing suffix alone, as for
  \<open>Survey1.docx\<close>, which yields \<open>Survey1.txt\<close>; but \<open>my.docx.docx\<close> yields \<open>my.txt.txt\<close>.
\<close>

theorem output_filename_every_occurrence:
  "endswith f ''.docx'' \<Longrightarrow>
     (\<exists>stem. f = stem @ ''.docx''
        \<and> output_filename f = replace stem ''.docx'' ''.txt'' @ ''.txt''
        \<and> (\<not> sublist ''.docx'' stem \<longrightarrow> output_filename f = stem @ ''.txt''))"
proof -
  assume "endswith f ''.docx''"
  then obtain stem where f: "f = stem @ ''.docx''"
    by (auto simp: endswith_iff)
  have "output_filename f = replace stem ''.docx'' ''.txt'' @ ''.txt''"
    by (simp add: output_filename_def f replace_docx_append)
  moreover have "replace stem ''.docx'' ''.txt'' = stem" if "\<not> sublist ''.docx'' stem"
    using that by (intro replace_absent) simp_all
  ultimately show ?thesis using f by auto
qed

theorem output_filename_every_occurrence_witness:
  "endswith ''Survey1.docx'' ''.docx'' \<and> \<not> sublist ''.docx'' ''Survey1''
     \<and> output_filename ''Survey1.docx'' = ''Survey1.txt''"
proof -
  have sel: "endswith ''Survey1.docx'' ''.docx''"
    by (simp add: endswith_def suffix_def)
  have absent: "\<not> sublist ''.docx'' ''Survey1''"
    by code_simp
  from output_filename_every_occurrence [OF sel]
  obtain stem where stem: "''Survey1.docx'' = stem @ ''.docx''"
    and out: "\<not> sublist ''.docx'' stem \<longrightarrow> output_filename ''Survey1.docx'' = stem @ ''.txt''"
    by blast
  have "''Survey1.docx'' = ''Survey1'' @ ''.docx''" by simp
  with stem have "stem = ''Survey1''" by (simp only: append_same_eq)
  with out absent sel show ?thesis by simp
qed

text \<open>The edge case of the specification: the suffix in the middle of the name is rewritten too.\<close>

theorem output_filename_mid_name_counterexample:
  "endswith ''my.docx.docx'' ''.docx''
     \<and> output_filename ''my.docx.docx'' = ''my.txt.txt''
     \<and> output_filename ''my.docx.docx'' \<noteq> ''my.docx.txt''"
  by (simp add: endswith_def suffix_def output_filename_def replace.simps)

text \<open>
  Claim C3, as the code has it. Two distinct selected names can derive the same output
  filename, since a \<open>.docx\<close> in the middle of one name becomes the \<open>.txt\<close> in the middle of the
  other. The derivation is injective on the selected names that contain \<open>.docx\<close> only as
  their suffix, and so are the output paths.
\<close>

theorem output_filename_injective:
  "\<not> sublist ''.docx'' s1 \<Longrightarrow> \<not> sublist ''.docx'' s2 \<Longrightarrow> s1 @ ''.docx'' \<noteq> s2 @ ''.docx'' \<Longrightarrow>
     output_filename (s1 @ ''.docx'') \<noteq> output_filename (s2 @ ''.docx'')
       \<and> output_path (s1 @ ''.docx'') \<noteq> output_path (s2 @ ''.docx'')"
proof -
  assume a1: "\<not> sublist ''.docx'' s1" and a2: "\<not> sublist ''.docx'' s2"
    and ne: "s1 @ ''.docx'' \<noteq> s2 @ ''.docx''"
  have "replace s1 ''.docx'' ''.txt'' = s1" using a1 by (intro replace_absent) simp_all
  moreover have "replace s2 ''.docx'' ''.txt'' = s2" using a2 by (intro replace_absent) simp_all
  ultimately have "output_filename (s1 @ ''.docx'') = s1 @ ''.txt''"
    and "output_filename (s2 @ ''.docx'') = s2 @ ''.txt''"
    by (simp_all add: output_filename_def replace_docx_append)
  with ne show ?thesis by (simp add: output_path_def path_join_def)
qed

theorem output_filename_injective_witness:
  "\<not> sublist ''.docx'' ''Survey1'' \<and> \<not> sublist ''.docx'' ''Survey2''
     \<and> ''Survey1'' @ ''.docx'' \<noteq> ''Survey2'' @ ''.docx''
     \<and> output_filename (''Survey1'' @ ''.docx'') \<noteq> output_filename (''Survey2'' @ ''.docx'')
     \<and> output_path (''Survey1'' @ ''.docx'') \<noteq> output_path (''Survey2'' @ ''.docx'')"
proof -
  have a1: "\<not> sublist ''.docx'' ''Survey1''" by code_simp
  have a2: "\<not> sublist ''.docx'' ''Survey2''" by code_simp
  have ne: "''Survey1'' @ ''.docx'' \<noteq> ''Survey2'' @ ''.docx''" by simp
  from output_filename_injective [OF a1 a2 ne] a1 a2 ne show ?thesis by blast
qed

theorem output_filename_collision_counterexample:
  "endswith ''a.docx.docx'' ''.docx'' \<and> endswith ''a.txt.docx'' ''.docx''
     \<and> ''a.docx.docx'' \<noteq> ''a.txt.docx''
     \<and> output_filename ''a.docx.docx'' = output_filename ''a.txt.docx''"
  by (simp add: endswith_def suffix_def output_filename_def replace.simps)

section \<open>Facts about the extraction loops\<close>

text \<open>Each loop appends to its accumulator what a map or a filter over its input gives.\<close>

lemma full_text_loop_eq:
  "full_text_loop paras acc = acc @ [t \<leftarrow> map strip paras. t \<noteq> []]"
  by (induction paras arbitrary: acc) simp_all

lemma row_text_loop_eq: "row_text_loop cells acc = acc @ map strip cells"
  by (induction cells arbitrary: acc) simp_all

lemma rows_loop_eq:
  "rows_loop rows acc = acc @ map (\<lambda>row. join '' | '' (map strip row)) rows"
  by (induction rows arbitrary: acc) (simp_all add: row_text_loop_eq)

lemma tables_loop_eq:
  "tables_loop ts acc = acc @ map (\<lambda>row. join '' | '' (map strip row)) (concat ts)"
  by (induction ts arbitrary: acc) (simp_all add: rows_loop_eq)

lemma strip_decomposition:
  "\<exists>l r. s = l @ strip s @ r \<and> list_all isspace l \<and> list_all isspace r"
proof -
  let ?m = "dropWhile isspace s"
  have "s = takeWhile isspace s @ ?m" by simp
  moreover have "rev ?m = takeWhile isspace (rev ?m) @ dropWhile isspace (rev ?m)" by simp
  then have "?m = strip s @ rev (takeWhile isspace (rev ?m))"
    unfolding strip_def by (metis rev_append rev_rev_ident)
  moreover have "list_all isspace (takeWhile isspace s)"
    by (simp add: list_all_iff) (meson set_takeWhileD)
  moreover have "list_all isspace (rev (takeWhile isspace (rev ?m)))"
    by (simp add: list_all_iff) (meson set_takeWhileD)
  ultimately show ?thesis by (metis append_assoc)
qed

lemma strip_ends:
  "strip s \<noteq> [] \<Longrightarrow> \<not> isspace (hd (strip s)) \<and> \<not> isspace (last (strip s))"
proof -
  assume ne: "strip s \<noteq> []"
  let ?m = "dropWhile isspace s"
  let ?k = "dropWhile isspace (rev ?m)"
  from ne have k: "?k \<noteq> []" by (simp add: strip_def)
  then have "\<not> isspace (hd ?k)" by (rule hd_dropWhile)
  with k have l: "\<not> isspace (last (strip s))" by (simp add: strip_def last_rev)
  have m: "?m \<noteq> []"
  proof
    assume "?m = []"
    then have "?k = []" by (simp only: rev.simps dropWhile.simps)
    with k show False by simp
  qed
  then have hm: "\<not> isspace (hd ?m)" by (rule hd_dropWhile)
  have "hd (strip s) = last ?k" using k by (simp add: strip_def hd_rev)
  also have "\<dots> = last (rev ?m)"
    using k by (metis last_appendR takeWhile_dropWhile_id)
  also have "\<dots> = hd ?m" using m by (simp add: last_rev)
  finally show ?thesis using hm l by simp
qed

lemma strip_empty_iff: "strip s = [] \<longleftrightarrow> list_all isspace s"
proof
  assume "strip s = []"
  with strip_decomposition [of s] show "list_all isspace s" by auto
next
  assume "list_all isspace s"
  then show "strip s = []" by (auto simp: strip_def list_all_iff dest: set_dropWhileD)
qed

text \<open>
  Claim C4. The extracted paragraphs are the paragraphs of the document in order, each
  stripped, those with an empty stripped text left out. Stripping removes whitespace at
  both ends and nothing else, so no extracted paragraph is empty or begins or ends with
  whitespace. A document whose paragraphs are all whitespace yields no paragraph, and the
  paragraphs section of the output is empty.
\<close>

theorem full_text_trimmed_nonempty:
  "full_text doc = [t \<leftarrow> map strip (paragraphs doc). t \<noteq> []]
     \<and> (\<forall>p \<in> set (paragraphs doc).
           \<exists>l r. p = l @ strip p @ r \<and> list_all isspace l \<and> list_all isspace r)
     \<and> (\<forall>t \<in> set (full_text doc). t \<noteq> [] \<and> \<not> isspace (hd t) \<and> \<not> isspace (last t))
     \<and> (list_all (list_all isspace) (paragraphs doc) \<longrightarrow>
           full_text doc = [] \<and> join ''\<newline>'' (full_text doc) = [])"
proof -
  have eq: "full_text doc = [t \<leftarrow> map strip (paragraphs doc). t \<noteq> []]"
    by (simp add: full_text_def full_text_loop_eq)
  have ends: "\<forall>t \<in> set (full_text doc). t \<noteq> [] \<and> \<not> isspace (hd t) \<and> \<not> isspace (last t)"
    unfolding eq using strip_ends by auto
  have blank: "full_text doc = []" if "list_all (list_all isspace) (paragraphs doc)"
    unfolding eq using that by (auto simp: filter_empty_conv strip_empty_iff list_all_iff)
  from eq ends blank strip_decomposition show ?thesis by simp
qed

theorem full_text_trimmed_nonempty_witness:
  "list_all (list_all isspace) (paragraphs blank_doc)
     \<and> full_text blank_doc = []
     \<and> full_text survey_doc = [''Name?'', ''Age?'']"
proof -
  have blank: "list_all (list_all isspace) (paragraphs blank_doc)"
    by (simp add: blank_doc_def isspace_def)
  with full_text_trimmed_nonempty [of blank_doc] have "full_text blank_doc = []"
    by blast
  moreover from full_text_trimmed_nonempty [of survey_doc]
  have "full_text survey_doc = [''Name?'', ''Age?'']"
    by (simp add: survey_doc_def strip_def isspace_def)
  ultimately show ?thesis using blank by simp
qed

text \<open>
  Claim C5. The table content is one flat list of row-lines: the rows of all tables in
  order, with nothing between two tables, each row-line the stripped texts of the row's
  cells joined by \<open>" | "\<close>. The row with cells \<open>"a "\<close>, \<open>" b"\<close>, \<open>"c"\<close> gives \<open>"a | b | c"\<close>.
\<close>

theorem tables_text_flat_rows:
  "tables_text doc = map (\<lambda>row. join '' | '' (map strip row)) (concat (tables doc))
     \<and> join '' | '' (map strip [''a '', '' b'', ''c'']) = ''a | b | c''
     \<and> tables_text \<lparr>paragraphs = [], tables = [[[''a '', '' b'', ''c'']], [[''x'']]]\<rparr>
         = [''a | b | c'', ''x'']"
  by (simp add: tables_text_def tables_loop_eq strip_def isspace_def)

section \<open>Facts about one iteration and the loop\<close>

text \<open>The writes leave a prefix of the whole text, and the whole text when none raises.\<close>

lemma f_writes_ok:
  "f_writes w p chunks acc = (content, None) \<Longrightarrow> content = acc @ concat chunks"
proof (induction chunks arbitrary: acc)
  case Nil
  then show ?case by simp
next
  case (Cons c chunks)
  from Cons.prems have "f_writes w p chunks (acc @ c) = (content, None)"
    by (simp split: option.splits)
  then have "content = (acc @ c) @ concat chunks" by (rule Cons.IH)
  then show ?case by simp
qed

lemma f_writes_prefix:
  "f_writes w p chunks acc = (content, r) \<Longrightarrow> prefix content (acc @ concat chunks)"
proof (induction chunks arbitrary: acc)
  case Nil
  then show ?case by simp
next
  case (Cons c chunks)
  show ?case
  proof (cases "f_write w p c")
    case None
    with Cons.prems have "f_writes w p chunks (acc @ c) = (content, r)" by simp
    then have "prefix content ((acc @ c) @ concat chunks)" by (rule Cons.IH)
    then show ?thesis by simp
  next
    case (Some e)
    with Cons.prems show ?thesis by simp
  qed
qed

lemma f_writes_all_ok:
  "\<forall>c \<in> set chunks. f_write w p c = None \<Longrightarrow> f_writes w p chunks acc = (acc @ concat chunks, None)"
  by (induction chunks arbitrary: acc) auto

text \<open>The four ways through one iteration.\<close>

lemma process_file_parse_error:
  "docx_Document w (file_path f) = Inl (Exception d) \<Longrightarrow>
     process_file w f st = st\<lparr>stdout := stdout st @ [error_line f d]\<rparr>"
  by (simp add: process_file_def try_block_def)

lemma process_file_open_error:
  "docx_Document w (file_path f) = Inr doc \<Longrightarrow> open_w w (output_path f) = Some (Exception d) \<Longrightarrow>
     process_file w f st = st\<lparr>stdout := stdout st @ [error_line f d]\<rparr>"
  by (simp add: process_file_def try_block_def)

lemma process_file_write_error:
  "docx_Document w (file_path f) = Inr doc \<Longrightarrow> open_w w (output_path f) = None \<Longrightarrow>
   f_writes w (output_path f) (output_chunks doc) [] = (content, Some (Exception d)) \<Longrightarrow>
     process_file w f st =
       st\<lparr>files := (files st)(output_path f \<mapsto> content), stdout := stdout st @ [error_line f d]\<rparr>"
  by (simp add: process_file_def try_block_def)

lemma process_file_ok:
  "docx_Document w (file_path f) = Inr doc \<Longrightarrow> open_w w (output_path f) = None \<Longrightarrow>
   f_writes w (output_path f) (output_chunks doc) [] = (content, None) \<Longrightarrow>
     process_file w f st =
       st\<lparr>files := (files st)(output_path f \<mapsto> content), stdout := stdout st @ [ok_line f]\<rparr>"
  by (simp add: process_file_def try_block_def)

text \<open>
  Whatever the world answers, one iteration appends one status line and overwrites at most
  the output path of its entry, with a text that does not depend on the state before.
\<close>

lemma process_file_effect:
  "\<exists>line m. (line = ok_line f \<or> (\<exists>d. line = error_line f d))
     \<and> dom m \<subseteq> {output_path f}
     \<and> (\<forall>st. process_file w f st = st\<lparr>files := files st ++ m, stdout := stdout st @ [line]\<rparr>)"
proof (cases "docx_Document w (file_path f)")
  case (Inl e)
  obtain d where "e = Exception d" by (cases e)
  with Inl have "\<forall>st. process_file w f st
      = st\<lparr>files := files st ++ Map.empty, stdout := stdout st @ [error_line f d]\<rparr>"
    by (simp add: process_file_parse_error)
  then show ?thesis by (intro exI [of _ "error_line f d"] exI [of _ Map.empty]) auto
next
  case (Inr doc)
  show ?thesis
  proof (cases "open_w w (output_path f)")
    case (Some e)
    obtain d where "e = Exception d" by (cases e)
    with Inr Some have "\<forall>st. process_file w f st
        = st\<lparr>files := files st ++ Map.empty, stdout := stdout st @ [error_line f d]\<rparr>"
      by (simp add: process_file_open_error)
    then show ?thesis by (intro exI [of _ "error_line f d"] exI [of _ Map.empty]) auto
  next
    case None
    obtain content r where fw: "f_writes w (output_path f) (output_chunks doc) [] = (content, r)"
      by (cases "f_writes w (output_path f) (output_chunks doc) []")
    have upd: "\<And>st. (files st)(output_path f \<mapsto> content) = files st ++ [output_path f \<mapsto> content]"
      by simp
    show ?thesis
    proof (cases r)
      case None
      with Inr \<open>open_w w (output_path f) = None\<close> fw
      have "\<forall>st. process_file w f st
          = st\<lparr>files := files st ++ [output_path f \<mapsto> content], stdout := stdout st @ [ok_line f]\<rparr>"
        by (simp add: process_file_ok)
      then show ?thesis
        by (intro exI [of _ "ok_line f"] exI [of _ "[output_path f \<mapsto> content]"]) auto
    next
      case (Some e)
      obtain d where "e = Exception d" by (cases e)
      with Some Inr \<open>open_w w (output_path f) = None\<close> fw
      have "\<forall>st. process_file w f st
          = st\<lparr>files := files st ++ [output_path f \<mapsto> content], stdout := stdout st @ [error_line f d]\<rparr>"
        by (simp add: process_file_write_error)
      then show ?thesis
        by (intro exI [of _ "error_line f d"] exI [of _ "[output_path f \<mapsto> content]"]) auto
    qed
  qed
qed

text \<open>
  The loop over any list of entries: one status line for each entry, in order, and writes
  to the output paths of these entries only, the same from whatever state it starts.
\<close>

lemma for_loop_effect:
  "\<exists>lines m. list_all2 (\<lambda>f line. line = ok_line f \<or> (\<exists>d. line = error_line f d)) fs lines
     \<and> dom m \<subseteq> output_path ` set fs
     \<and> (\<forall>st. for_loop w fs st = st\<lparr>files := files st ++ m, stdout := stdout st @ lines\<rparr>)"
proof (induction fs)
  case Nil
  show ?case by (intro exI [of _ "[]"] exI [of _ Map.empty]) simp
next
  case (Cons f fs)
  from process_file_effect [of f w] obtain line m1
    where l: "line = ok_line f \<or> (\<exists>d. line = error_line f d)"
      and d1: "dom m1 \<subseteq> {output_path f}"
      and p: "\<And>st. process_file w f st = st\<lparr>files := files st ++ m1, stdout := stdout st @ [line]\<rparr>"
    by blast
  from Cons.IH obtain lines m2
    where ls: "list_all2 (\<lambda>f line. line = ok_line f \<or> (\<exists>d. line = error_line f d)) fs lines"
      and d2: "dom m2 \<subseteq> output_path ` set fs"
      and r: "\<And>st. for_loop w fs st = st\<lparr>files := files st ++ m2, stdout := stdout st @ lines\<rparr>"
    by blast
  have "\<forall>st. for_loop w (f # fs) st
      = st\<lparr>files := files st ++ (m1 ++ m2), stdout := stdout st @ (line # lines)\<rparr>"
    by (simp add: p r)
  moreover from d1 d2 have "dom (m1 ++ m2) \<subseteq> output_path ` set (f # fs)" by auto
  moreover from l ls have "list_all2 (\<lambda>f line. line = ok_line f \<or> (\<exists>d. line = error_line f d))
      (f # fs) (line # lines)" by simp
  ultimately show ?case by blast
qed

lemma file_path_eq_iff: "file_path a = file_path b \<longleftrightarrow> a = b"
  by (simp add: file_path_def path_join_def)

lemma main_Inr:
  "main w fs = Inr st \<longleftrightarrow>
     os_makedirs w output_dir = None
       \<and> (\<exists>entries. os_listdir w questionnaires_dir = Inr entries
             \<and> st = (for_loop w (docx_files entries) \<lparr>files = fs, stdout = []\<rparr>)
                   \<lparr>stdout := stdout (for_loop w (docx_files entries) \<lparr>files = fs, stdout = []\<rparr>)
                      @ [''\<newline>All extracted files saved to: '' @ output_dir]\<rparr>)"
  by (auto simp: main_def Let_def split: option.splits sum.splits)

section \<open>The sample world, evaluated\<close>

lemma sample_docs:
  "docx_Document sample_world (file_path ''Survey1.docx'') = Inr survey_doc"
  "docx_Document sample_world (file_path ''Survey3.docx'') = Inr blank_doc"
  "docx_Document sample_world (file_path ''broken.docx'') = Inl (Exception ''Package not found'')"
  "open_w sample_world p = None"
  "f_write sample_world p c = None"
  "os_makedirs sample_world d = None"
  by (simp_all add: sample_world_def file_path_eq_iff)

lemma sample_texts:
  "full_text survey_doc = [''Name?'', ''Age?'']"
  "tables_text survey_doc = [''a | b | c'', ''1 | 2'', ''x'']"
  "full_text blank_doc = []"
  "tables_text blank_doc = []"
  by (simp_all add: full_text_def tables_text_def survey_doc_def blank_doc_def strip_def
      isspace_def)

lemma sample_listing:
  "os_listdir sample_world d
     = Inr [''Survey1.docx'', ''notes.txt'', ''broken.docx'', ''Survey2.DOCX'', ''Survey3.docx'']"
  "docx_files [''Survey1.docx'', ''notes.txt'', ''broken.docx'', ''Survey2.DOCX'', ''Survey3.docx'']
     = [''Survey1.docx'', ''broken.docx'', ''Survey3.docx'']"
  by (simp_all add: sample_world_def docx_files_def endswith_def suffix_to_prefix)

lemma sample_steps:
  "process_file sample_world ''Survey1.docx'' st
     = st\<lparr>files := (files st)(output_path ''Survey1.docx'' \<mapsto>
           ''=== PARAGRAPHS ===\<newline>Name?\<newline>Age?\<newline>\<newline>=== TABLES ===\<newline>a | b | c\<newline>1 | 2\<newline>x''),
          stdout := stdout st @ [''[OK] Extracted: Survey1.docx'']\<rparr>"
  "process_file sample_world ''broken.docx'' st
     = st\<lparr>stdout := stdout st @ [''[ERROR] Error extracting broken.docx: Package not found'']\<rparr>"
  "process_file sample_world ''Survey3.docx'' st
     = st\<lparr>files := (files st)(output_path ''Survey3.docx'' \<mapsto>
           ''=== PARAGRAPHS ===\<newline>\<newline>\<newline>=== TABLES ===\<newline>''),
          stdout := stdout st @ [''[OK] Extracted: Survey3.docx'']\<rparr>"
  by (simp_all add: process_file_def try_block_def sample_docs f_writes_all_ok output_chunks_def
      sample_texts ok_line_def error_line_def)

lemma sample_run: "main sample_world Map.empty = Inr sample_result"
  by (simp add: main_def sample_docs sample_listing sample_steps sample_result_def)

lemma output_path_eq_iff: "output_path a = output_path b \<longleftrightarrow> output_filename a = output_filename b"
  by (simp add: output_path_def path_join_def)

lemma sample_names:
  "output_filename ''Survey1.docx'' = ''Survey1.txt''"
  "output_filename ''broken.docx'' = ''broken.txt''"
  "output_filename ''Survey3.docx'' = ''Survey3.txt''"
  "output_filename ''notes.txt'' = ''notes.txt''"
  "output_filename ''Survey2.DOCX'' = ''Survey2.DOCX''"
  by (simp_all add: output_filename_def replace.simps)

lemma readonly_docs:
  "docx_Document readonly_world (file_path ''Survey1.docx'') = Inr survey_doc"
  "open_w readonly_world p = Some (Exception ''Permission denied'')"
  by (simp_all add: readonly_world_def sample_docs)

lemma full_disk_docs:
  "docx_Document full_disk_world (file_path ''Survey1.docx'') = Inr survey_doc"
  "docx_Document full_disk_world (file_path ''broken.docx'')
     = Inl (Exception ''Package not found'')"
  "open_w full_disk_world p = None"
  "f_write full_disk_world p ''=== PARAGRAPHS ===\<newline>'' = None"
  "f_write full_disk_world p ''Name?\<newline>Age?'' = None"
  "f_write full_disk_world p ''\<newline>\<newline>=== TABLES ===\<newline>''
     = Some (Exception ''No space left on device'')"
  by (simp_all add: full_disk_world_def sample_docs)

section \<open>The output file\<close>

text \<open>
  Claim C6. When the body of the \<open>try\<close> completes, the document was opened and the output
  file holds exactly: the line \<open>=== PARAGRAPHS ===\<close>, the paragraph texts joined by
  newlines, a blank line, the line \<open>=== TABLES ===\<close>, the row-lines joined by newlines, and
  nothing after them. With no paragraph and no row the file exists and holds the two
  headers with empty bodies. The \<open>[OK]\<close> line of the entry is printed.
\<close>

theorem output_file_structure:
  "snd (try_block w f st) = None \<Longrightarrow>
     (\<exists>doc. docx_Document w (file_path f) = Inr doc
        \<and> files (process_file w f st) (output_path f)
            = Some (''=== PARAGRAPHS ===\<newline>'' @ join ''\<newline>'' (full_text doc)
                    @ ''\<newline>\<newline>=== TABLES ===\<newline>'' @ join ''\<newline>'' (tables_text doc))
        \<and> (full_text doc = [] \<and> tables_text doc = [] \<longrightarrow>
              files (process_file w f st) (output_path f)
                = Some ''=== PARAGRAPHS ===\<newline>\<newline>\<newline>=== TABLES ===\<newline>'')
        \<and> stdout (process_file w f st) = stdout st @ [''[OK] Extracted: '' @ f])"
proof -
  assume ok: "snd (try_block w f st) = None"
  then obtain doc where doc: "docx_Document w (file_path f) = Inr doc"
    by (cases "docx_Document w (file_path f)") (auto simp: try_block_def)
  with ok have op: "open_w w (output_path f) = None"
    by (cases "open_w w (output_path f)") (auto simp: try_block_def)
  obtain content r where fw: "f_writes w (output_path f) (output_chunks doc) [] = (content, r)"
    by (cases "f_writes w (output_path f) (output_chunks doc) []")
  with ok doc op have r: "r = None"
    by (cases r) (auto simp: try_block_def)
  with fw have "content = concat (output_chunks doc)"
    by (auto dest: f_writes_ok)
  then have content: "content = ''=== PARAGRAPHS ===\<newline>'' @ join ''\<newline>'' (full_text doc)
                    @ ''\<newline>\<newline>=== TABLES ===\<newline>'' @ join ''\<newline>'' (tables_text doc)"
    by (simp add: output_chunks_def)
  from doc op fw r have "process_file w f st
      = st\<lparr>files := (files st)(output_path f \<mapsto> content), stdout := stdout st @ [ok_line f]\<rparr>"
    by (simp add: process_file_ok)
  with content doc show ?thesis by (auto simp: ok_line_def)
qed

theorem output_file_structure_witness:
  "snd (try_block sample_world ''Survey3.docx'' start) = None
     \<and> full_text blank_doc = [] \<and> tables_text blank_doc = []
     \<and> files (process_file sample_world ''Survey3.docx'' start) (output_path ''Survey3.docx'')
         = Some ''=== PARAGRAPHS ===\<newline>\<newline>\<newline>=== TABLES ===\<newline>''
     \<and> stdout (process_file sample_world ''Survey3.docx'' start) = [''[OK] Extracted: Survey3.docx'']"
proof -
  have ok: "snd (try_block sample_world ''Survey3.docx'' start) = None"
    by (simp add: try_block_def sample_docs f_writes_all_ok)
  from output_file_structure [OF ok] obtain doc
    where doc: "docx_Document sample_world (file_path ''Survey3.docx'') = Inr doc"
      and empty: "full_text doc = [] \<and> tables_text doc = [] \<longrightarrow>
              files (process_file sample_world ''Survey3.docx'' start) (output_path ''Survey3.docx'')
                = Some ''=== PARAGRAPHS ===\<newline>\<newline>\<newline>=== TABLES ===\<newline>''"
      and out: "stdout (process_file sample_world ''Survey3.docx'' start)
                = stdout start @ [''[OK] Extracted: '' @ ''Survey3.docx'']"
    by blast
  from doc have "doc = blank_doc" by (simp add: sample_docs)
  with empty out ok show ?thesis by (simp add: sample_texts start_def)
qed

section \<open>Failures\<close>

text \<open>
  Claim C7. When the document of an entry fails to open or parse, the iteration prints one
  line made of the tag \<open>[ERROR]\<close>, the entry name and the description of the failure, and
  changes nothing else: no file is created or written. The loop goes on with the entries
  that follow, from that state.
\<close>

theorem parse_failure_reported_and_skipped:
  "docx_Document w (file_path f) = Inl (Exception d) \<Longrightarrow>
     process_file w f st = st\<lparr>stdout := stdout st @ [''[ERROR] Error extracting '' @ f @ '': '' @ d]\<rparr>
     \<and> files (process_file w f st) = files st
     \<and> for_loop w (f # rest) st
         = for_loop w rest (st\<lparr>stdout := stdout st @ [''[ERROR] Error extracting '' @ f @ '': '' @ d]\<rparr>)"
  by (simp add: process_file_parse_error error_line_def)

theorem parse_failure_reported_and_skipped_witness:
  "docx_Document sample_world (file_path ''broken.docx'') = Inl (Exception ''Package not found'')
     \<and> process_file sample_world ''broken.docx'' start
         = start\<lparr>stdout := [''[ERROR] Error extracting broken.docx: Package not found'']\<rparr>
     \<and> files (process_file sample_world ''broken.docx'' start) (output_path ''broken.docx'') = None
     \<and> stdout (for_loop sample_world [''broken.docx'', ''Survey3.docx''] start)
         = [''[ERROR] Error extracting broken.docx: Package not found'',
            ''[OK] Extracted: Survey3.docx'']
     \<and> files (for_loop sample_world [''broken.docx'', ''Survey3.docx''] start)
           (output_path ''Survey3.docx'')
         = Some ''=== PARAGRAPHS ===\<newline>\<newline>\<newline>=== TABLES ===\<newline>''"
proof -
  have bad: "docx_Document sample_world (file_path ''broken.docx'')
      = Inl (Exception ''Package not found'')"
    by (simp add: sample_docs)
  note step = parse_failure_reported_and_skipped [OF bad, of start "[''Survey3.docx'']"]
  have next_ok: "process_file sample_world ''Survey3.docx'' st
      = st\<lparr>files := (files st)(output_path ''Survey3.docx'' \<mapsto>
                ''=== PARAGRAPHS ===\<newline>\<newline>\<newline>=== TABLES ===\<newline>''),
            stdout := stdout st @ [ok_line ''Survey3.docx'']\<rparr>" for st
    by (rule process_file_ok [where doc = blank_doc])
      (simp_all add: sample_docs f_writes_all_ok output_chunks_def sample_texts)
  from step bad show ?thesis
    by (simp add: next_ok start_def ok_line_def)
qed

text \<open>
  Claim C2, as the code has it. The opening of the output file and the four writes stand
  inside the \<open>try\<close>, so the guard catches their failures as it catches those of the parser:
  whatever raises in the body, the iteration returns with one \<open>[ERROR]\<close> line printed and
  the loop goes on. A failure of the parser, or of the opening of the output file, comes
  before any write and leaves every file as it was. A failure of a write leaves the output
  file created, holding the text written before the failure, a prefix of the whole text.
\<close>

theorem failures_caught_by_guard:
  "try_block w f st = (st', Some (Exception d)) \<Longrightarrow>
     process_file w f st = st'\<lparr>stdout := stdout st @ [''[ERROR] Error extracting '' @ f @ '': '' @ d]\<rparr>
     \<and> for_loop w (f # rest) st
         = for_loop w rest (st'\<lparr>stdout := stdout st @ [''[ERROR] Error extracting '' @ f @ '': '' @ d]\<rparr>)
     \<and> ((docx_Document w (file_path f) = Inl (Exception d) \<and> st' = st)
        \<or> (\<exists>doc. docx_Document w (file_path f) = Inr doc
              \<and> open_w w (output_path f) = Some (Exception d) \<and> st' = st)
        \<or> (\<exists>doc content. docx_Document w (file_path f) = Inr doc
              \<and> open_w w (output_path f) = None
              \<and> f_writes w (output_path f) (output_chunks doc) [] = (content, Some (Exception d))
              \<and> prefix content (concat (output_chunks doc))
              \<and> st' = st\<lparr>files := (files st)(output_path f \<mapsto> content)\<rparr>))"
proof -
  assume tb: "try_block w f st = (st', Some (Exception d))"
  have where_: "(docx_Document w (file_path f) = Inl (Exception d) \<and> st' = st)
        \<or> (\<exists>doc. docx_Document w (file_path f) = Inr doc
              \<and> open_w w (output_path f) = Some (Exception d) \<and> st' = st)
        \<or> (\<exists>doc content. docx_Document w (file_path f) = Inr doc
              \<and> open_w w (output_path f) = None
              \<and> f_writes w (output_path f) (output_chunks doc) [] = (content, Some (Exception d))
              \<and> prefix content (concat (output_chunks doc))
              \<and> st' = st\<lparr>files := (files st)(output_path f \<mapsto> content)\<rparr>)"
  proof (cases "docx_Document w (file_path f)")
    case (Inl e)
    with tb show ?thesis by (simp add: try_block_def)
  next
    case (Inr doc)
    show ?thesis
    proof (cases "open_w w (output_path f)")
      case (Some e)
      with Inr tb show ?thesis by (simp add: try_block_def)
    next
      case None
      obtain content r where fw: "f_writes w (output_path f) (output_chunks doc) [] = (content, r)"
        by (cases "f_writes w (output_path f) (output_chunks doc) []")
      from f_writes_prefix [OF fw] have pre: "prefix content (concat (output_chunks doc))"
        by simp
      from tb Inr None fw have "r = Some (Exception d)"
        and "st' = st\<lparr>files := (files st)(output_path f \<mapsto> content)\<rparr>"
        by (cases r; simp add: try_block_def)+
      with Inr None fw pre show ?thesis by simp
    qed
  qed
  then have "stdout st' = stdout st" by auto
  with tb have "process_file w f st
      = st'\<lparr>stdout := stdout st @ [''[ERROR] Error extracting '' @ f @ '': '' @ d]\<rparr>"
    by (simp add: process_file_def error_line_def)
  with where_ show ?thesis by simp
qed

theorem failures_caught_by_guard_witness:
  "try_block readonly_world ''Survey1.docx'' start = (start, Some (Exception ''Permission denied''))
     \<and> process_file readonly_world ''Survey1.docx'' start
         = start\<lparr>stdout := [''[ERROR] Error extracting Survey1.docx: Permission denied'']\<rparr>
     \<and> for_loop readonly_world [''Survey1.docx'', ''broken.docx''] start
         = for_loop readonly_world [''broken.docx'']
             (start\<lparr>stdout := [''[ERROR] Error extracting Survey1.docx: Permission denied'']\<rparr>)"
proof -
  have tb: "try_block readonly_world ''Survey1.docx'' start
      = (start, Some (Exception ''Permission denied''))"
    by (simp add: try_block_def readonly_docs)
  from failures_caught_by_guard [OF tb, of "[''broken.docx'']"] tb show ?thesis
    by (simp add: start_def)
qed

text \<open>
  The disk fills up at the third write: the guard catches the failure, the \<open>[ERROR]\<close> line
  is printed, the file is left with the first header and the paragraphs, and the next entry
  is processed.
\<close>

theorem write_failure_caught_counterexample:
  "docx_Document full_disk_world (file_path ''Survey1.docx'') = Inr survey_doc
     \<and> open_w full_disk_world (output_path ''Survey1.docx'') = None
     \<and> stdout (process_file full_disk_world ''Survey1.docx'' start)
         = [''[ERROR] Error extracting Survey1.docx: No space left on device'']
     \<and> files (process_file full_disk_world ''Survey1.docx'' start) (output_path ''Survey1.docx'')
         = Some ''=== PARAGRAPHS ===\<newline>Name?\<newline>Age?''
     \<and> stdout (for_loop full_disk_world [''Survey1.docx'', ''broken.docx''] start)
         = [''[ERROR] Error extracting Survey1.docx: No space left on device'',
            ''[ERROR] Error extracting broken.docx: Package not found'']"
proof -
  have fw: "f_writes full_disk_world (output_path ''Survey1.docx'') (output_chunks survey_doc) []
      = (''=== PARAGRAPHS ===\<newline>Name?\<newline>Age?'', Some (Exception ''No space left on device''))"
    by (simp add: output_chunks_def sample_texts full_disk_docs)
  have step: "process_file full_disk_world ''Survey1.docx'' st
      = st\<lparr>files := (files st)(output_path ''Survey1.docx'' \<mapsto>
                ''=== PARAGRAPHS ===\<newline>Name?\<newline>Age?''),
            stdout := stdout st @ [error_line ''Survey1.docx'' ''No space left on device'']\<rparr>" for st
    by (rule process_file_write_error [OF full_disk_docs(1) full_disk_docs(3) fw])
  have bad: "process_file full_disk_world ''broken.docx'' st
      = st\<lparr>stdout := stdout st @ [error_line ''broken.docx'' ''Package not found'']\<rparr>" for st
    by (rule process_file_parse_error [OF full_disk_docs(2)])
  show ?thesis
    by (simp add: step bad full_disk_docs start_def error_line_def)
qed

section \<open>The whole run\<close>

text \<open>The listing plays no part in an iteration.\<close>

lemma f_writes_listdir:
  "f_writes (w\<lparr>os_listdir := l\<rparr>) p chunks acc = f_writes w p chunks acc"
  by (induction chunks arbitrary: acc) (simp_all split: option.splits)

lemma process_file_listdir:
  "process_file (w\<lparr>os_listdir := l\<rparr>) f st = process_file w f st"
  by (simp add: process_file_def try_block_def f_writes_listdir split: sum.splits option.splits)

lemma for_loop_listdir:
  "for_loop (w\<lparr>os_listdir := l\<rparr>) fs st = for_loop w fs st"
  by (induction fs arbitrary: st) (simp_all add: process_file_listdir)

lemma docx_files_idem: "docx_files (docx_files entries) = docx_files entries"
  by (simp add: docx_files_def)

lemma map_add_twice: "(fs ++ m) ++ m = fs ++ (m :: 'a \<rightharpoonup> 'b)"
  by (rule ext) (simp add: map_add_def split: option.splits)

lemma status_count:
  "list_all2 (\<lambda>f line. line = ok_line f \<or> (\<exists>d. line = error_line f d)) fs lines \<Longrightarrow>
     length [l \<leftarrow> lines. prefix ''[OK]'' l] + length [l \<leftarrow> lines. prefix ''[ERROR]'' l] = length fs"
  by (induction rule: list_all2_induct) (auto simp: ok_line_def error_line_def)

text \<open>
  Claim C8. The entries processed are those of the listing of the source directory whose
  names end with \<open>.docx\<close>, compared code point by code point: the console holds one status
  line for each of them, in the order of the listing, then the summary line; no file
  outside their output paths is created or changed; and the run is the same as on a
  directory with the other entries removed. \<open>os.listdir\<close> returns the names directly inside
  the directory, so nothing below it is visited.
\<close>

theorem only_docx_entries_processed:
  "main w fs = Inr st \<Longrightarrow>
     (\<exists>entries lines. os_listdir w questionnaires_dir = Inr entries
        \<and> stdout st = lines @ [''\<newline>All extracted files saved to: '' @ output_dir]
        \<and> list_all2 (\<lambda>f line. line = ''[OK] Extracted: '' @ f
                        \<or> (\<exists>d. line = ''[ERROR] Error extracting '' @ f @ '': '' @ d))
             [f \<leftarrow> entries. endswith f ''.docx''] lines
        \<and> (\<forall>p. p \<notin> output_path ` {f \<in> set entries. endswith f ''.docx''} \<longrightarrow> files st p = fs p)
        \<and> main (w\<lparr>os_listdir := \<lambda>d. Inr [f \<leftarrow> entries. endswith f ''.docx'']\<rparr>) fs = Inr st)
     \<and> endswith ''Survey2.docx'' ''.docx'' \<and> \<not> endswith ''Survey2.DOCX'' ''.docx''"
proof -
  assume run: "main w fs = Inr st"
  then obtain entries where mk: "os_makedirs w output_dir = None"
    and ls: "os_listdir w questionnaires_dir = Inr entries"
    and st: "st = (for_loop w (docx_files entries) \<lparr>files = fs, stdout = []\<rparr>)
                   \<lparr>stdout := stdout (for_loop w (docx_files entries) \<lparr>files = fs, stdout = []\<rparr>)
                      @ [''\<newline>All extracted files saved to: '' @ output_dir]\<rparr>"
    by (auto simp: main_Inr)
  from for_loop_effect [of "docx_files entries" w] obtain lines m
    where ls2: "list_all2 (\<lambda>f line. line = ok_line f \<or> (\<exists>d. line = error_line f d))
                  (docx_files entries) lines"
      and dm: "dom m \<subseteq> output_path ` set (docx_files entries)"
      and r: "\<And>st. for_loop w (docx_files entries) st
                = st\<lparr>files := files st ++ m, stdout := stdout st @ lines\<rparr>"
    by blast
  from st r have out: "stdout st = lines @ [''\<newline>All extracted files saved to: '' @ output_dir]"
    and fl: "files st = fs ++ m"
    by simp_all
  have untouched: "files st p = fs p"
    if "p \<notin> output_path ` {f \<in> set entries. endswith f ''.docx''}" for p
  proof -
    from that dm have "p \<notin> dom m" by (auto simp: docx_files_def)
    with fl show ?thesis by (simp add: map_add_dom_app_simps)
  qed
  have same: "main (w\<lparr>os_listdir := \<lambda>d. Inr [f \<leftarrow> entries. endswith f ''.docx'']\<rparr>) fs = Inr st"
    using mk st docx_files_idem [of entries]
    by (simp add: main_def Let_def for_loop_listdir docx_files_def)
  have cs: "endswith ''Survey2.docx'' ''.docx'' \<and> \<not> endswith ''Survey2.DOCX'' ''.docx''"
    by (simp add: endswith_def suffix_to_prefix)
  from ls2 have "list_all2 (\<lambda>f line. line = ''[OK] Extracted: '' @ f
                        \<or> (\<exists>d. line = ''[ERROR] Error extracting '' @ f @ '': '' @ d))
             [f \<leftarrow> entries. endswith f ''.docx''] lines"
    by (simp add: docx_files_def ok_line_def error_line_def)
  with ls out untouched same cs show ?thesis by blast
qed

theorem only_docx_entries_processed_witness:
  "main sample_world Map.empty = Inr sample_result
     \<and> os_listdir sample_world questionnaires_dir
         = Inr [''Survey1.docx'', ''notes.txt'', ''broken.docx'', ''Survey2.DOCX'', ''Survey3.docx'']
     \<and> [f \<leftarrow> [''Survey1.docx'', ''notes.txt'', ''broken.docx'', ''Survey2.DOCX'', ''Survey3.docx''].
           endswith f ''.docx''] = [''Survey1.docx'', ''broken.docx'', ''Survey3.docx'']
     \<and> files sample_result (output_path ''notes.txt'') = None
     \<and> files sample_result (output_path ''Survey2.DOCX'') = None
     \<and> main (sample_world\<lparr>os_listdir := \<lambda>d. Inr [''Survey1.docx'', ''broken.docx'', ''Survey3.docx'']\<rparr>)
           Map.empty = Inr sample_result"
proof -
  have run: "main sample_world Map.empty = Inr sample_result"
    by (rule sample_run)
  from only_docx_entries_processed [OF run] obtain entries
    where ls: "os_listdir sample_world questionnaires_dir = Inr entries"
      and untouched: "\<And>p. p \<notin> output_path ` {f \<in> set entries. endswith f ''.docx''} \<Longrightarrow>
              files sample_result p = Map.empty p"
      and same: "main (sample_world\<lparr>os_listdir := \<lambda>d. Inr [f \<leftarrow> entries. endswith f ''.docx'']\<rparr>)
              Map.empty = Inr sample_result"
    by blast
  from ls have e: "entries
      = [''Survey1.docx'', ''notes.txt'', ''broken.docx'', ''Survey2.DOCX'', ''Survey3.docx'']"
    by (simp add: sample_listing)
  have sel: "[f \<leftarrow> [''Survey1.docx'', ''notes.txt'', ''broken.docx'', ''Survey2.DOCX'',
      ''Survey3.docx'']. endswith f ''.docx''] = [''Survey1.docx'', ''broken.docx'', ''Survey3.docx'']"
    using sample_listing(2) by (simp only: docx_files_def)
  have img: "output_path ` {f \<in> set entries. endswith f ''.docx''}
      = output_path ` {''Survey1.docx'', ''broken.docx'', ''Survey3.docx''}"
  proof -
    have "{f \<in> set entries. endswith f ''.docx''} = set [f \<leftarrow> entries. endswith f ''.docx'']"
      by simp
    also have "\<dots> = {''Survey1.docx'', ''broken.docx'', ''Survey3.docx''}"
      unfolding e sel by simp
    finally show ?thesis by simp
  qed
  have "files sample_result (output_path ''notes.txt'') = Map.empty (output_path ''notes.txt'')"
    by (rule untouched) (simp add: img output_path_eq_iff sample_names)
  moreover have "files sample_result (output_path ''Survey2.DOCX'')
      = Map.empty (output_path ''Survey2.DOCX'')"
    by (rule untouched) (simp add: img output_path_eq_iff sample_names)
  moreover from same have "main (sample_world\<lparr>os_listdir :=
      \<lambda>d. Inr [''Survey1.docx'', ''broken.docx'', ''Survey3.docx'']\<rparr>) Map.empty = Inr sample_result"
    unfolding e sel .
  ultimately show ?thesis using run ls e sel by (simp only: simp_thms)
qed

text \<open>
  Claim C9. In a run that reaches its end, the lines starting with \<open>[OK]\<close> and the lines
  starting with \<open>[ERROR]\<close> are together as many as the entries of the listing whose names
  end with \<open>.docx\<close>.
\<close>

theorem status_line_count:
  "main w fs = Inr st \<Longrightarrow>
     (\<exists>entries. os_listdir w questionnaires_dir = Inr entries
        \<and> length [l \<leftarrow> stdout st. prefix ''[OK]'' l] + length [l \<leftarrow> stdout st. prefix ''[ERROR]'' l]
            = length [f \<leftarrow> entries. endswith f ''.docx''])"
proof -
  assume "main w fs = Inr st"
  then obtain entries where ls: "os_listdir w questionnaires_dir = Inr entries"
    and st: "st = (for_loop w (docx_files entries) \<lparr>files = fs, stdout = []\<rparr>)
                   \<lparr>stdout := stdout (for_loop w (docx_files entries) \<lparr>files = fs, stdout = []\<rparr>)
                      @ [''\<newline>All extracted files saved to: '' @ output_dir]\<rparr>"
    by (auto simp: main_Inr)
  from for_loop_effect [of "docx_files entries" w] obtain lines m
    where ls2: "list_all2 (\<lambda>f line. line = ok_line f \<or> (\<exists>d. line = error_line f d))
                  (docx_files entries) lines"
      and r: "\<And>st. for_loop w (docx_files entries) st
                = st\<lparr>files := files st ++ m, stdout := stdout st @ lines\<rparr>"
    by blast
  from st r have "stdout st = lines @ [''\<newline>All extracted files saved to: '' @ output_dir]"
    by simp
  with status_count [OF ls2] ls show ?thesis by (simp add: docx_files_def)
qed

theorem status_line_count_witness:
  "main sample_world Map.empty = Inr sample_result
     \<and> os_listdir sample_world questionnaires_dir
         = Inr [''Survey1.docx'', ''notes.txt'', ''broken.docx'', ''Survey2.DOCX'', ''Survey3.docx'']
     \<and> length [l \<leftarrow> stdout sample_result. prefix ''[OK]'' l] = 2
     \<and> length [l \<leftarrow> stdout sample_result. prefix ''[ERROR]'' l] = 1
     \<and> length [f \<leftarrow> [''Survey1.docx'', ''notes.txt'', ''broken.docx'', ''Survey2.DOCX'',
                     ''Survey3.docx'']. endswith f ''.docx''] = 3"
proof -
  have run: "main sample_world Map.empty = Inr sample_result"
    by (simp add: main_def sample_docs sample_listing sample_steps sample_result_def)
  from status_line_count [OF run] obtain entries
    where ls: "os_listdir sample_world questionnaires_dir = Inr entries"
      and n: "length [l \<leftarrow> stdout sample_result. prefix ''[OK]'' l]
              + length [l \<leftarrow> stdout sample_result. prefix ''[ERROR]'' l]
            = length [f \<leftarrow> entries. endswith f ''.docx'']"
    by blast
  from ls have e: "entries
      = [''Survey1.docx'', ''notes.txt'', ''broken.docx'', ''Survey2.DOCX'', ''Survey3.docx'']"
    by (simp add: sample_listing)
  have sel: "length [f \<leftarrow> [''Survey1.docx'', ''notes.txt'', ''broken.docx'', ''Survey2.DOCX'',
      ''Survey3.docx'']. endswith f ''.docx''] = 3"
    by (simp add: endswith_def suffix_to_prefix)
  have ok: "length [l \<leftarrow> stdout sample_result. prefix ''[OK]'' l] = 2"
    by (simp add: sample_result_def)
  from n ok have "length [l \<leftarrow> stdout sample_result. prefix ''[ERROR]'' l] = 1"
    unfolding e sel by linarith
  with run ls e ok sel show ?thesis by (simp only: simp_thms)
qed

text \<open>
  Claim C10. A second run in the same world, started from the files the first run left,
  ends with the same files and the same console: each iteration overwrites its output
  path with a text that depends on the world and the entry only, not on what was there.
\<close>

theorem rerun_reproduces_outputs:
  "main w fs = Inr st1 \<Longrightarrow>
     (\<exists>st2. main w (files st1) = Inr st2 \<and> files st2 = files st1 \<and> stdout st2 = stdout st1)
     \<and> (\<forall>f st. files (process_file w f (process_file w f st)) = files (process_file w f st))"
proof -
  assume run: "main w fs = Inr st1"
  then obtain entries where mk: "os_makedirs w output_dir = None"
    and ls: "os_listdir w questionnaires_dir = Inr entries"
    and st: "st1 = (for_loop w (docx_files entries) \<lparr>files = fs, stdout = []\<rparr>)
                   \<lparr>stdout := stdout (for_loop w (docx_files entries) \<lparr>files = fs, stdout = []\<rparr>)
                      @ [''\<newline>All extracted files saved to: '' @ output_dir]\<rparr>"
    by (auto simp: main_Inr)
  from for_loop_effect [of "docx_files entries" w] obtain lines m
    where r: "\<And>st. for_loop w (docx_files entries) st
                = st\<lparr>files := files st ++ m, stdout := stdout st @ lines\<rparr>"
    by blast
  from st r have fl: "files st1 = fs ++ m"
    and out: "stdout st1 = lines @ [''\<newline>All extracted files saved to: '' @ output_dir]"
    by simp_all
  define st2 where "st2 = (for_loop w (docx_files entries) \<lparr>files = files st1, stdout = []\<rparr>)
                   \<lparr>stdout := stdout (for_loop w (docx_files entries) \<lparr>files = files st1, stdout = []\<rparr>)
                      @ [''\<newline>All extracted files saved to: '' @ output_dir]\<rparr>"
  from mk ls have "main w (files st1) = Inr st2"
    by (simp add: main_def Let_def st2_def)
  moreover have "files st2 = files st1"
    by (simp add: st2_def r fl map_add_twice)
  moreover have "stdout st2 = stdout st1"
    by (simp add: st2_def r out)
  moreover have "files (process_file w f (process_file w f st)) = files (process_file w f st)"
    for f st
  proof -
    from process_file_effect [of f w] obtain line m1
      where p: "\<And>st. process_file w f st
                  = st\<lparr>files := files st ++ m1, stdout := stdout st @ [line]\<rparr>"
      by blast
    show ?thesis by (simp add: p map_add_twice)
  qed
  ultimately show ?thesis by blast
qed

theorem rerun_reproduces_outputs_witness:
  "main sample_world Map.empty = Inr sample_result
     \<and> main sample_world (files sample_result) = Inr sample_result"
proof -
  have run: "main sample_world Map.empty = Inr sample_result"
    by (rule sample_run)
  from rerun_reproduces_outputs [OF run] obtain st2
    where again: "main sample_world (files sample_result) = Inr st2"
      and "files st2 = files sample_result" and "stdout st2 = stdout sample_result"
    by blast
  then have "st2 = sample_result" by simp
  with again run show ?thesis by simp
qed

end
